theory Spec2Isabelle
  imports Complex_Main
begin

section \<open>Risk normalization: data model\<close>

text \<open>
  The program works on numpy floats: the trades are a numpy array ("Expecting a numpy
  array with one dimension"), so the equity is a numpy float64 from the first step on,
  and so is every percentile. Finite floats are modelled as the real numbers; rounding
  and overflow are outside the model.

  \<open>ValueError\<close> and \<open>IndexError\<close> are the exceptions the Python runtime and its
  libraries raise in this program. \<open>NotANumber\<close> is no exception: it marks a call
  that returns normally with a float that is NaN, which no real number stands for. The
  last four constructors are the failure kinds of the specification's taxonomy; no
  function of the source produces them, they are here so that statements about them
  can be written down.
\<close>

datatype error =
    ValueError
  | IndexError
  | NotANumber
  | InvalidInput
  | DegenerateRisk
  | NonConvergence
  | NonPositiveTerminalWealth

text \<open>
  The global random source of the \<open>random\<close> module is made explicit: a generator is the
  sequence of raw values it is going to produce, and every draw consumes the first one.
  \<open>random.randint(a, b)\<close> raises ValueError on an empty range and otherwise returns a
  value between \<open>a\<close> and \<open>b\<close> inclusive. Every sequence of in-range results comes
  from some generator, so a statement about all generators covers every run.
\<close>

type_synonym rng = "nat \<Rightarrow> nat"

definition advance :: "nat \<Rightarrow> rng \<Rightarrow> rng" where
  "advance k g = (\<lambda>i. g (i + k))"

definition randint :: "int \<Rightarrow> int \<Rightarrow> rng \<Rightarrow> error + (int \<times> rng)" where
  "randint a b g =
     (if b < a then Inl ValueError
      else Inr (a + int (g 0 mod nat (b - a + 1)), advance 1 g))"

text \<open>Indexing a sequence with an integer: negative indices count from the end.\<close>

definition getitem :: "real list \<Rightarrow> int \<Rightarrow> error + real" where
  "getitem xs i =
     (if 0 \<le> i \<and> i < int (length xs) then Inr (xs ! nat i)
      else if i < 0 \<and> - int (length xs) \<le> i then Inr (xs ! nat (int (length xs) + i))
      else Inl IndexError)"

text \<open>
  Division of numpy float64 values. A zero divisor raises nothing: numpy prints a
  RuntimeWarning and the quotient is an infinity (non-zero dividend) or NaN (zero
  dividend), and execution goes on. \<open>NonFinite\<close> stands for those three values.
\<close>

datatype float64 = Finite real | NonFinite

definition float_divide :: "real \<Rightarrow> real \<Rightarrow> float64" where
  "float_divide x y = (if y = 0 then NonFinite else Finite (x / y))"

section \<open>make_one_equity_sequence\<close>

text \<open>The local variables of \<open>make_one_equity_sequence\<close> that the loop updates.\<close>

record sequence_state =
  equity :: real
  max_equity :: real
  drawdown :: real
  max_drawdown :: real
  daily_equity :: "real list"

text \<open>
  One pass through the body of \<open>for i in range(forecast_length)\<close>.

  The divisor \<open>max_equity\<close> is zero only when the equity is zero too: then the drawdown
  is \<open>0.0 / 0.0\<close>, NaN, and \<open>max(drawdown, max_drawdown)\<close> is NaN. From there on the
  equity stays \<open>0.0\<close>, every drawdown is NaN again, and the function returns
  \<open>(0.0, nan)\<close> at the end of its loop: \<open>Inl NotANumber\<close> stands for that return.
\<close>

definition sequence_step ::
  "real list \<Rightarrow> real \<Rightarrow> nat \<Rightarrow> sequence_state \<Rightarrow> rng \<Rightarrow> error + (sequence_state \<times> rng)" where
  "sequence_step trades fraction i s g =
     (case randint 0 (int (length trades) - 1) g of
        Inl e \<Rightarrow> Inl e
      | Inr (trade_index, g') \<Rightarrow>
          (case getitem trades trade_index of
             Inl e \<Rightarrow> Inl e
           | Inr trade \<Rightarrow>
               (let trade_dollars = equity s * fraction * trade;
                    equity' = equity s + trade_dollars;
                    daily' = (daily_equity s)[i := equity'];
                    max_equity' = max equity' (max_equity s)
                in case float_divide (max_equity' - equity') max_equity' of
                     NonFinite \<Rightarrow> Inl NotANumber
                   | Finite drawdown' \<Rightarrow>
                       Inr (\<lparr>equity = equity', max_equity = max_equity',
                             drawdown = drawdown',
                             max_drawdown = max drawdown' (max_drawdown s),
                             daily_equity = daily'\<rparr>, g'))))"

text \<open>
  The loop, over the indices that \<open>range\<close> yields; the first \<open>Inl\<close> outcome is the
  outcome of the loop.
\<close>

fun form_sequence ::
  "real list \<Rightarrow> real \<Rightarrow> nat list \<Rightarrow> sequence_state \<Rightarrow> rng \<Rightarrow> error + (sequence_state \<times> rng)" where
  "form_sequence trades fraction [] s g = Inr (s, g)"
| "form_sequence trades fraction (i # js) s g =
     (case sequence_step trades fraction i s g of
        Inl e \<Rightarrow> Inl e
      | Inr (s', g') \<Rightarrow> form_sequence trades fraction js s' g')"

definition initial_state :: "int \<Rightarrow> real \<Rightarrow> sequence_state" where
  "initial_state forecast_length initial_capital =
     \<lparr>equity = initial_capital, max_equity = initial_capital, drawdown = 0,
      max_drawdown = 0, daily_equity = replicate (nat forecast_length) 0\<rparr>"

text \<open>
  The whole function, without the optional plot. \<open>np.zeros\<close> raises ValueError on a
  negative length; \<open>range\<close> of a non-positive length is empty.
\<close>

definition make_one_equity_sequence ::
  "real list \<Rightarrow> real \<Rightarrow> int \<Rightarrow> real \<Rightarrow> rng \<Rightarrow> error + ((real \<times> real) \<times> rng)" where
  "make_one_equity_sequence trades fraction forecast_length initial_capital g =
     (if forecast_length < 0 then Inl ValueError
      else case form_sequence trades fraction [0..<nat forecast_length]
                  (initial_state forecast_length initial_capital) g of
             Inl e \<Rightarrow> Inl e
           | Inr (s, g') \<Rightarrow> Inr ((equity s, max_drawdown s), g'))"

section \<open>Percentiles and the distribution estimators\<close>

text \<open>
  \<open>np.percentile(a, q)\<close> with numpy's default method: \<open>q\<close> outside 0..100 raises
  ValueError; otherwise the sample is put in order and the value at the fractional
  position \<open>q / 100 * (n - 1)\<close> is interpolated linearly between its two neighbours.
  On an empty sample numpy gives NaN or raises IndexError, depending on its version;
  the model stops with \<open>IndexError\<close>.
\<close>

definition np_percentile :: "real list \<Rightarrow> real \<Rightarrow> error + real" where
  "np_percentile a q =
     (if q < 0 \<or> 100 < q then Inl ValueError
      else if a = [] then Inl IndexError
      else (let arr = sort a;
                n = length arr;
                virtual_index = q / 100 * real (n - 1);
                lo = nat \<lfloor>virtual_index\<rfloor>;
                hi = min (lo + 1) (n - 1);
                gamma = virtual_index - real lo
            in Inr (arr ! lo + gamma * (arr ! hi - arr ! lo))))"

text \<open>
  The loop that \<open>analyze_distribution_of_drawdown\<close> and \<open>form_distribution_of_equity\<close>
  both contain, word for word: \<open>number_sequences\<close> calls of
  \<open>make_one_equity_sequence(trades, fraction)\<close>, appending to both lists. The call
  passes two arguments only, so the simulator runs with its own defaults
  \<open>forecast_length=500\<close> and \<open>initial_capital=100000.0\<close>. With that capital the
  simulator never returns NaN for a real fraction, so the only \<open>Inl\<close> that passes
  through here is an exception.
\<close>

fun run_sequences ::
  "real list \<Rightarrow> real \<Rightarrow> nat \<Rightarrow> real list \<Rightarrow> real list \<Rightarrow> rng
     \<Rightarrow> error + ((real list \<times> real list) \<times> rng)" where
  "run_sequences trades fraction 0 equity_list max_dd_list g =
     Inr ((equity_list, max_dd_list), g)"
| "run_sequences trades fraction (Suc n) equity_list max_dd_list g =
     (case make_one_equity_sequence trades fraction 500 100000 g of
        Inl e \<Rightarrow> Inl e
      | Inr ((eq, max_dd), g') \<Rightarrow>
          run_sequences trades fraction n (equity_list @ [eq]) (max_dd_list @ [max_dd]) g')"

text \<open>
  The parameters \<open>forecast_length\<close>, \<open>initial_capital\<close> and \<open>weighting\<close> are
  declared by the source and never read. The plots are left out.
\<close>

definition analyze_distribution_of_drawdown ::
  "real list \<Rightarrow> real \<Rightarrow> int \<Rightarrow> real \<Rightarrow> string \<Rightarrow> int \<Rightarrow> real \<Rightarrow> rng
     \<Rightarrow> error + (real \<times> rng)" where
  "analyze_distribution_of_drawdown trades fraction forecast_length initial_capital
       weighting number_sequences tail_percentile g =
     (case run_sequences trades fraction (nat number_sequences) [] [] g of
        Inl e \<Rightarrow> Inl e
      | Inr ((equity_list, max_dd_list), g') \<Rightarrow>
          (let sorted_max_dd = sort max_dd_list
           in case np_percentile sorted_max_dd (100 - tail_percentile) of
                Inl e \<Rightarrow> Inl e
              | Inr tail_risk \<Rightarrow> Inr (tail_risk, g')))"

definition form_distribution_of_equity ::
  "real list \<Rightarrow> real \<Rightarrow> int \<Rightarrow> real \<Rightarrow> int \<Rightarrow> rng \<Rightarrow> error + (real list \<times> rng)" where
  "form_distribution_of_equity trades fraction forecast_length initial_capital
       number_sequences g =
     (case run_sequences trades fraction (nat number_sequences) [] [] g of
        Inl e \<Rightarrow> Inl e
      | Inr ((equity_list, max_dd_list), g') \<Rightarrow> Inr (sort equity_list, g'))"

text \<open>
  \<open>compute_tail_risk\<close> calls the drawdown estimator with two arguments, so with the
  defaults for the rest, and takes the percentile of the scalar it gets back:
  \<open>np.asarray\<close> of a scalar is an array with that one element.
\<close>

definition compute_tail_risk ::
  "real list \<Rightarrow> real \<Rightarrow> real \<Rightarrow> rng \<Rightarrow> error + (real \<times> rng)" where
  "compute_tail_risk drawdowns fraction tail_percentile g =
     (case analyze_distribution_of_drawdown drawdowns fraction 500 100000 ''uniform'' 1000 5 g of
        Inl e \<Rightarrow> Inl e
      | Inr (CDF_dd, g') \<Rightarrow>
          (case np_percentile [CDF_dd] (100 - tail_percentile) of
             Inl e \<Rightarrow> Inl e
           | Inr tail_risk \<Rightarrow> Inr (tail_risk, g')))"

section \<open>The program: solving for safe-f, then CAR25\<close>

definition drawdown_tolerance :: real where
  "drawdown_tolerance = 10 / 100"

definition desired_accuracy :: real where
  "desired_accuracy = 3 / 1000"

definition initial_capital_global :: real where
  "initial_capital_global = 100000"

definition forecast_length_global :: int where
  "forecast_length_global = 500"

text \<open>The variables that are live when the \<open>while not done\<close> loop is left.\<close>

record solver_result =
  final_fraction :: real
  final_tail_risk :: real
  safe_f :: real

text \<open>
  One pass of the drawdown estimator when the fraction is an infinity or NaN. On an
  empty pool the first draw raises ValueError as always. Otherwise nothing is raised
  and all 1000 curves of 500 draws run: the first trade makes the equity infinite or
  NaN, every \<open>max_drawdown\<close> comes out as \<open>inf\<close> or NaN, and so does the tail risk.
  The value returned here is the generator after the pass.
\<close>

definition analyze_non_finite :: "real list \<Rightarrow> rng \<Rightarrow> error + rng" where
  "analyze_non_finite trades g =
     (if trades = [] then Inl ValueError else Inr (advance (500 * 1000) g))"

text \<open>
  The loop \<open>while not done\<close> from a pass on with a fraction that is an infinity or NaN:
  the tail risk is \<open>inf\<close> or NaN, the test \<open>abs(tail_risk - drawdown_tolerance) <
  desired_accuracy\<close> is false, and the rescaled fraction is NaN.
\<close>

partial_function (option) loop_non_finite ::
  "real list \<Rightarrow> rng \<Rightarrow> (error + (solver_result \<times> rng)) option" where
  "loop_non_finite trades g =
     (case analyze_non_finite trades g of
        Inl e \<Rightarrow> Some (Inl e)
      | Inr g' \<Rightarrow> loop_non_finite trades g')"

text \<open>
  The loop \<open>while not done\<close>. It has no bound on its passes, so the model is a partial
  function: \<open>None\<close> is the run that never leaves the loop. The rescale divides by the
  tail risk that \<open>np.percentile\<close> returned, a numpy float64: on a tail risk of zero
  the fraction becomes an infinity or NaN and the loop goes on with it.
\<close>

partial_function (option) solve_safe_f ::
  "real list \<Rightarrow> real \<Rightarrow> rng \<Rightarrow> (error + (solver_result \<times> rng)) option" where
  "solve_safe_f trades fraction g =
     (case analyze_distribution_of_drawdown trades fraction 500 100000 ''uniform'' 1000 5 g of
        Inl e \<Rightarrow> Some (Inl e)
      | Inr (tail_risk, g') \<Rightarrow>
          if \<bar>tail_risk - drawdown_tolerance\<bar> < desired_accuracy
          then Some (Inr (\<lparr>final_fraction = fraction, final_tail_risk = tail_risk,
                            safe_f = tail_risk\<rparr>, g'))
          else (case float_divide (fraction * drawdown_tolerance) tail_risk of
                  NonFinite \<Rightarrow> loop_non_finite trades g'
                | Finite fraction' \<Rightarrow> solve_safe_f trades fraction' g'))"

text \<open>
  \<open>math.log\<close> raises ValueError ("math domain error") on an argument that is not
  positive.
\<close>

definition math_log :: "real \<Rightarrow> error + real" where
  "math_log x = (if x \<le> 0 then Inl ValueError else Inr (ln x))"

text \<open>
  The CAR25 computation from the sorted final equities: \<open>TWR25\<close>, then the
  annualised return.
\<close>

definition compute_CAR25 :: "real list \<Rightarrow> error + real" where
  "compute_CAR25 CDF_equity =
     (case np_percentile CDF_equity 25 of
        Inl e \<Rightarrow> Inl e
      | Inr TWR25 \<Rightarrow>
          (case math_log (TWR25 / initial_capital_global) of
             Inl e \<Rightarrow> Inl e
           | Inr l \<Rightarrow>
               Inr (100 * (exp ((252 / real_of_int forecast_length_global) * l) - 1))))"

text \<open>
  One pass of the body of \<open>for rep in range(5)\<close>: a first estimate with every default
  (its result is overwritten), the solver from fraction 1.0, and CAR25 at the fraction
  the solver ended with.
\<close>

definition risk_normalization ::
  "real list \<Rightarrow> rng \<Rightarrow> (error + ((solver_result \<times> real) \<times> rng)) option" where
  "risk_normalization trades g =
     (case analyze_distribution_of_drawdown trades 1 500 100000 ''uniform'' 1000 5 g of
        Inl e \<Rightarrow> Some (Inl e)
      | Inr (first_tail_risk, g1) \<Rightarrow>
          (case solve_safe_f trades 1 g1 of
             None \<Rightarrow> None
           | Some (Inl e) \<Rightarrow> Some (Inl e)
           | Some (Inr (r, g2)) \<Rightarrow>
               (case form_distribution_of_equity trades (final_fraction r) 500 100000 1000 g2 of
                  Inl e \<Rightarrow> Some (Inl e)
                | Inr (CDF_equity, g3) \<Rightarrow>
                    (case compute_CAR25 CDF_equity of
                       Inl e \<Rightarrow> Some (Inl e)
                     | Inr CAR25 \<Rightarrow> Some (Inr ((r, CAR25), g3))))))"

section \<open>The specification's recurrence for one equity sequence\<close>

text \<open>The index that the draw number \<open>i\<close> of a generator picks in a pool of trades.\<close>

definition drawn_index :: "real list \<Rightarrow> rng \<Rightarrow> nat \<Rightarrow> nat" where
  "drawn_index trades g i = g i mod length trades"

text \<open>
  The recurrence of the specification for the simulator, in its words: one step from
  \<open>(equity, maxEquity, maxDrawdown)\<close> with the drawn trade \<open>r\<close>, and the run over a
  given list of drawn indices from \<open>(initialCapital, initialCapital, 0)\<close>.
\<close>

definition spec_step :: "real \<Rightarrow> real \<times> real \<times> real \<Rightarrow> real \<Rightarrow> real \<times> real \<times> real" where
  "spec_step fraction st r =
     (case st of (e, maxEquity, maxDrawdown) \<Rightarrow>
        (let e' = e + e * fraction * r;
             maxEquity' = max maxEquity e';
             dd = (maxEquity' - e') / maxEquity'
         in (e', maxEquity', max maxDrawdown dd)))"

definition simulate :: "real list \<Rightarrow> real \<Rightarrow> real \<Rightarrow> nat list \<Rightarrow> real \<times> real" where
  "simulate tradePool fraction initialCapital idxs =
     (case foldl (spec_step fraction) (initialCapital, initialCapital, 0)
             (map (\<lambda>k. tradePool ! k) idxs) of
        (e, maxEquity, maxDrawdown) \<Rightarrow> (e, maxDrawdown))"

text \<open>The three variables of the loop state that the recurrence is about.\<close>

definition summary :: "sequence_state \<Rightarrow> real \<times> real \<times> real" where
  "summary s = (equity s, max_equity s, max_drawdown s)"

text \<open>
  Curve number \<open>k\<close> of one pass of an estimator, as the recurrence gives it: the
  simulator's defaults (500 steps from 100000) on the draws from position \<open>500 * k\<close>.
\<close>

definition curve :: "real list \<Rightarrow> real \<Rightarrow> rng \<Rightarrow> nat \<Rightarrow> real \<times> real" where
  "curve trades fraction g k =
     simulate trades fraction 100000 (map (drawn_index trades (advance (500 * k) g)) [0..<500])"

section \<open>The specification's percentile and CAR25 formula\<close>

text \<open>
  The percentile of a sorted sample in the specification's words: linear interpolation
  between the two order statistics around the position \<open>p / 100 * (n - 1)\<close>.
\<close>

definition percentile_linear :: "real list \<Rightarrow> real \<Rightarrow> real" where
  "percentile_linear sortedSamples p =
     (let n = length sortedSamples;
          h = p / 100 * real (n - 1);
          below = nat \<lfloor>h\<rfloor>;
          above = nat \<lceil>h\<rceil>
      in sortedSamples ! below
           + (h - real below) * (sortedSamples ! above - sortedSamples ! below))"

text \<open>The annualisation formula of the specification, with its configuration values.\<close>

definition car25_formula :: "real \<Rightarrow> real \<Rightarrow> real \<Rightarrow> real \<Rightarrow> real" where
  "car25_formula periodsPerYear forecastLength initialCapital terminalWealth25 =
     100 * (exp ((periodsPerYear / forecastLength) * ln (terminalWealth25 / initialCapital)) - 1)"

section \<open>Concrete inputs\<close>

text \<open>A generator whose every draw picks index 0, and a pool with one flat trade.\<close>

definition constant_gen :: rng where
  "constant_gen = (\<lambda>i. 0)"

definition flat_pool :: "real list" where
  "flat_pool = [0]"

text \<open>
  A pool with one losing trade of 10 percent, and a generator that picks the loss at the
  first step of every curve of 500 steps and the flat trade otherwise.
\<close>

definition one_loss_pool :: "real list" where
  "one_loss_pool = [0, - 1 / 10]"

definition one_loss_gen :: rng where
  "one_loss_gen = (\<lambda>p. if p mod 500 = 0 then 1 else 0)"

text \<open>
  A pool with a flat trade and a total loss, and a generator that picks the loss at the
  first step of every curve, and at the second step too in every other pass of 1000
  curves. \<open>cycle_fraction\<close> and \<open>cycle_tail_risk\<close> are the fraction and the tail
  risk of pass number \<open>m\<close> of the solver on them.
\<close>

definition cycle_pool :: "real list" where
  "cycle_pool = [0, - 1]"

definition cycle_gen :: rng where
  "cycle_gen = (\<lambda>p. if p mod 500 = 0 \<or> (p mod 500 = 1 \<and> odd (p div 500000)) then 1 else 0)"

definition cycle_fraction :: "nat \<Rightarrow> real" where
  "cycle_fraction m = (if m = 0 then 1 else if odd m then 1 / 10 else 1 / 19)"

definition cycle_tail_risk :: "nat \<Rightarrow> real" where
  "cycle_tail_risk m = (if odd m then 19 / 100 else cycle_fraction m)"

section \<open>What a run of the solver can return\<close>

text \<open>
  The outcomes the loop can end with: the ValueError of the runtime, or the state of the
  pass whose tail risk was within the accuracy, with \<open>safe_f\<close> set to that tail risk.
\<close>

definition returned :: "error + (solver_result \<times> rng) \<Rightarrow> bool" where
  "returned y =
     (case y of
        Inl e \<Rightarrow> e = ValueError
      | Inr (r, g') \<Rightarrow> \<bar>final_tail_risk r - drawdown_tolerance\<bar> < desired_accuracy
                        \<and> safe_f r = final_tail_risk r)"

section \<open>Properties of make_one_equity_sequence\<close>

lemma randint_pool:
  "trades \<noteq> [] \<Longrightarrow>
   randint 0 (int (length trades) - 1) g = Inr (int (drawn_index trades g 0), advance 1 g)"
  by (cases trades) (simp_all add: randint_def drawn_index_def nat_add_distrib)

lemma getitem_nat: "k < length xs \<Longrightarrow> getitem xs (int k) = Inr (xs ! k)"
  by (simp add: getitem_def)

lemma drawn_index_less: "trades \<noteq> [] \<Longrightarrow> drawn_index trades g i < length trades"
  by (simp add: drawn_index_def)

lemma sequence_step_spec:
  assumes "trades \<noteq> []" and "0 < max_equity s"
  shows "\<exists>s'. sequence_step trades fraction i s g = Inr (s', advance 1 g)
          \<and> summary s' = spec_step fraction (summary s) (trades ! drawn_index trades g 0)
          \<and> 0 < max_equity s'
          \<and> daily_equity s' = (daily_equity s)[i := equity s']"
proof -
  let ?r = "trades ! drawn_index trades g 0"
  let ?e = "equity s + equity s * fraction * ?r"
  have pos: "0 < max ?e (max_equity s)" using assms(2) by simp
  then have nz: "max ?e (max_equity s) \<noteq> 0" by simp
  show ?thesis
    using assms(1) nz pos
    by (simp add: sequence_step_def randint_pool getitem_nat drawn_index_less
        float_divide_def Let_def summary_def spec_step_def max.commute)
qed

lemma form_sequence_spec:
  assumes "trades \<noteq> []"
  shows "0 < max_equity s \<Longrightarrow>
         \<exists>s'. form_sequence trades fraction js s g = Inr (s', advance (length js) g)
           \<and> summary s' = foldl (spec_step fraction) (summary s)
                 (map (\<lambda>k. trades ! k) (map (drawn_index trades g) [0..<length js]))
           \<and> 0 < max_equity s'"
proof (induction js arbitrary: s g)
  case Nil
  then show ?case by (simp add: advance_def)
next
  case (Cons i js)
  obtain s1 where s1: "sequence_step trades fraction i s g = Inr (s1, advance 1 g)"
      "summary s1 = spec_step fraction (summary s) (trades ! drawn_index trades g 0)"
      "0 < max_equity s1"
    using sequence_step_spec [OF assms Cons.prems] by blast
  obtain s' where s': "form_sequence trades fraction js s1 (advance 1 g)
        = Inr (s', advance (length js) (advance 1 g))"
      "summary s' = foldl (spec_step fraction) (summary s1)
                 (map (\<lambda>k. trades ! k) (map (drawn_index trades (advance 1 g)) [0..<length js]))"
      "0 < max_equity s'"
    using Cons.IH [OF s1(3)] by blast
  have adv: "advance (length js) (advance 1 g) = advance (length (i # js)) g"
    by (simp add: advance_def fun_eq_iff add.assoc)
  have idx: "map (drawn_index trades g) [0..<length (i # js)]
      = drawn_index trades g 0 # map (drawn_index trades (advance 1 g)) [0..<length js]"
    by (simp add: upt_conv_Cons map_Suc_upt [symmetric] drawn_index_def advance_def del: upt_Suc)
  have run: "form_sequence trades fraction (i # js) s g = Inr (s', advance (length (i # js)) g)"
    unfolding adv [symmetric] using s1(1) s'(1) by simp
  have fold: "summary s' = foldl (spec_step fraction) (summary s)
      (map (\<lambda>k. trades ! k) (map (drawn_index trades g) [0..<length (i # js)]))"
    unfolding idx using s1(2) s'(2) by simp
  show ?case
    using run fold s'(3) by blast
qed

lemma make_one_equity_sequence_simulate:
  assumes "trades \<noteq> []" and "0 < forecast_length" and "0 < initial_capital"
  shows "make_one_equity_sequence trades fraction forecast_length initial_capital g =
           Inr (simulate trades fraction initial_capital
                  (map (drawn_index trades g) [0..<nat forecast_length]),
                advance (nat forecast_length) g)
         \<and> length (map (drawn_index trades g) [0..<nat forecast_length]) = nat forecast_length
         \<and> (\<forall>k \<in> set (map (drawn_index trades g) [0..<nat forecast_length]). k < length trades)"
proof -
  let ?s0 = "initial_state forecast_length initial_capital"
  have pos: "0 < max_equity ?s0"
    using assms(3) by (simp add: initial_state_def)
  obtain s' where run: "form_sequence trades fraction [0..<nat forecast_length] ?s0 g
        = Inr (s', advance (length [0..<nat forecast_length]) g)"
      and sm: "summary s' = foldl (spec_step fraction) (summary ?s0)
          (map (\<lambda>k. trades ! k) (map (drawn_index trades g) [0..<length [0..<nat forecast_length]]))"
    using form_sequence_spec [OF assms(1) pos] by blast
  have s0: "summary ?s0 = (initial_capital, initial_capital, 0)"
    by (simp add: summary_def initial_state_def)
  have res: "simulate trades fraction initial_capital
       (map (drawn_index trades g) [0..<nat forecast_length]) = (equity s', max_drawdown s')"
    using sm [symmetric] unfolding s0 by (simp add: simulate_def summary_def)
  have "make_one_equity_sequence trades fraction forecast_length initial_capital g =
           Inr ((equity s', max_drawdown s'), advance (nat forecast_length) g)"
    using assms(2) run by (simp add: make_one_equity_sequence_def)
  then show ?thesis
    using res assms(1) by (simp add: drawn_index_less)
qed

text \<open>
  C1. For a non-empty trade pool, a positive forecast length and a positive initial
  capital, \<open>make_one_equity_sequence\<close> returns what the specified recurrence gives:
  from \<open>equity = initialCapital\<close>, \<open>maxEquity = equity\<close>, \<open>maxDrawdown = 0\<close> it takes
  \<open>forecastLength\<close> steps, each with an index drawn from \<open>[0, len(tradePool))\<close>, and
  returns \<open>(equity, maxDrawdown)\<close>; it consumes exactly \<open>forecastLength\<close> draws.
  That the draw is uniform is a property of \<open>random.randint\<close>, not of this program.
\<close>

theorem make_one_equity_sequence_recurrence:
  assumes "trades \<noteq> []" and "0 < forecast_length" and "0 < initial_capital"
  shows "make_one_equity_sequence trades fraction forecast_length initial_capital g =
           Inr (simulate trades fraction initial_capital
                  (map (drawn_index trades g) [0..<nat forecast_length]),
                advance (nat forecast_length) g)
         \<and> length (map (drawn_index trades g) [0..<nat forecast_length]) = nat forecast_length
         \<and> (\<forall>k \<in> set (map (drawn_index trades g) [0..<nat forecast_length]). k < length trades)"
  using assms by (rule make_one_equity_sequence_simulate)

theorem make_one_equity_sequence_recurrence_witness:
  "[1 / 10, - 1 / 5] \<noteq> ([] :: real list) \<and> (0::int) < 2 \<and> (0::real) < 100
   \<and> make_one_equity_sequence [1 / 10, - 1 / 5] 1 2 100 (\<lambda>i. i)
       = Inr ((88, 1 / 5), advance 2 (\<lambda>i. i))"
  using make_one_equity_sequence_recurrence [of "[1 / 10, - 1 / 5]" 2 100 1 "\<lambda>i. i"]
  by (simp add: simulate_def spec_step_def drawn_index_def Let_def numeral_2_eq_2)

lemma sequence_step_bounds:
  assumes "trades \<noteq> []" and "0 < max_equity s"
  shows "\<exists>s'. sequence_step trades fraction i s g = Inr (s', advance 1 g)
          \<and> 0 < max_equity s'
          \<and> max_drawdown s \<le> max_drawdown s'
          \<and> daily_equity s' = (daily_equity s)[i := equity s']
          \<and> (0 \<le> equity s' \<longrightarrow> max_drawdown s \<le> 1 \<longrightarrow> max_drawdown s' \<le> 1)"
proof -
  let ?r = "trades ! drawn_index trades g 0"
  let ?e = "equity s + equity s * fraction * ?r"
  let ?m = "max ?e (max_equity s)"
  have pos: "0 < ?m" using assms(2) by simp
  then have nz: "?m \<noteq> 0" by simp
  have le1: "0 \<le> ?e \<Longrightarrow> (?m - ?e) / ?m \<le> 1"
    using pos by (simp add: divide_le_eq_1_pos)
  show ?thesis
    using assms(1) nz pos le1
    by (simp add: sequence_step_def randint_pool getitem_nat drawn_index_less
        float_divide_def Let_def)
qed

lemma form_sequence_bounds:
  assumes "trades \<noteq> []"
  shows "k = n - i \<Longrightarrow> 0 < max_equity s \<Longrightarrow> 0 \<le> max_drawdown s
         \<Longrightarrow> length (daily_equity s) = n \<Longrightarrow>
         \<exists>s' g'. form_sequence trades fraction [i..<n] s g = Inr (s', g')
           \<and> 0 < max_equity s' \<and> 0 \<le> max_drawdown s'
           \<and> length (daily_equity s') = n
           \<and> (\<forall>j<i. daily_equity s' ! j = daily_equity s ! j)
           \<and> (max_drawdown s \<le> 1 \<longrightarrow> (\<forall>j. i \<le> j \<and> j < n \<longrightarrow> 0 \<le> daily_equity s' ! j)
                \<longrightarrow> max_drawdown s' \<le> 1)"
proof (induction k arbitrary: i s g)
  case 0
  then have "[i..<n] = []" by simp
  then show ?case using 0 by simp
next
  case (Suc k)
  then have lt: "i < n" and k: "k = n - Suc i" by simp_all
  have unf: "[i..<n] = i # [Suc i..<n]"
    using lt by (simp add: upt_conv_Cons)
  obtain s1 where s1: "sequence_step trades fraction i s g = Inr (s1, advance 1 g)"
      "0 < max_equity s1" "max_drawdown s \<le> max_drawdown s1"
      "daily_equity s1 = (daily_equity s)[i := equity s1]"
      "0 \<le> equity s1 \<longrightarrow> max_drawdown s \<le> 1 \<longrightarrow> max_drawdown s1 \<le> 1"
    using sequence_step_bounds [OF assms Suc.prems(2)] by blast
  have md1: "0 \<le> max_drawdown s1" using s1(3) Suc.prems(3) by simp
  have len1: "length (daily_equity s1) = n" using s1(4) Suc.prems(4) by simp
  obtain s' g' where s': "form_sequence trades fraction [Suc i..<n] s1 (advance 1 g) = Inr (s', g')"
      "0 < max_equity s'" "0 \<le> max_drawdown s'" "length (daily_equity s') = n"
      "\<forall>j<Suc i. daily_equity s' ! j = daily_equity s1 ! j"
      "max_drawdown s1 \<le> 1 \<longrightarrow> (\<forall>j. Suc i \<le> j \<and> j < n \<longrightarrow> 0 \<le> daily_equity s' ! j)
                \<longrightarrow> max_drawdown s' \<le> 1"
    using Suc.IH [OF k s1(2) md1 len1] by blast
  have at_i: "daily_equity s' ! i = equity s1"
    using s'(5) s1(4) lt Suc.prems(4) by simp
  have frame: "\<forall>j<i. daily_equity s' ! j = daily_equity s ! j"
    using s'(5) s1(4) by simp
  have run: "form_sequence trades fraction [i..<n] s g = Inr (s', g')"
    unfolding unf using s1(1) s'(1) by simp
  have bound: "max_drawdown s \<le> 1 \<longrightarrow> (\<forall>j. i \<le> j \<and> j < n \<longrightarrow> 0 \<le> daily_equity s' ! j)
                \<longrightarrow> max_drawdown s' \<le> 1"
  proof (intro impI)
    assume le: "max_drawdown s \<le> 1" and nn: "\<forall>j. i \<le> j \<and> j < n \<longrightarrow> 0 \<le> daily_equity s' ! j"
    from nn lt have "0 \<le> daily_equity s' ! i" by simp
    then have "0 \<le> equity s1" using at_i by simp
    then have "max_drawdown s1 \<le> 1" using s1(5) le by simp
    moreover have "\<forall>j. Suc i \<le> j \<and> j < n \<longrightarrow> 0 \<le> daily_equity s' ! j" using nn by simp
    ultimately show "max_drawdown s' \<le> 1" using s'(6) by simp
  qed
  show ?case
    using run s'(2,3,4) frame bound by blast
qed

lemma example_run:
  "form_sequence [1 / 10, - 1 / 5] 1 [0..<nat 2] (initial_state 2 100) (\<lambda>i. i)
    = Inr (\<lparr>equity = 88, max_equity = 110, drawdown = 1 / 5, max_drawdown = 1 / 5,
            daily_equity = [110, 88]\<rparr>, advance 2 (\<lambda>i. i))"
  by (simp add: numeral_2_eq_2 sequence_step_def randint_def getitem_def float_divide_def
      initial_state_def advance_def Let_def)

text \<open>
  C7. For a non-empty trade pool, any fraction and a positive initial capital, the loop
  never divides by zero (no drawdown is NaN and \<open>max_equity\<close> is not zero), and if
  every equity it recorded in \<open>daily_equity\<close> is non-negative, the
  returned maximum drawdown lies between 0 and 1. The forecast length is not negative,
  so that the function gets past \<open>np.zeros\<close>.
\<close>

theorem max_drawdown_in_unit_interval:
  assumes "trades \<noteq> []" and "0 < initial_capital" and "0 \<le> forecast_length"
  shows "\<exists>s g'. form_sequence trades fraction [0..<nat forecast_length]
                   (initial_state forecast_length initial_capital) g = Inr (s, g')
           \<and> make_one_equity_sequence trades fraction forecast_length initial_capital g
               = Inr ((equity s, max_drawdown s), g')
           \<and> max_equity s \<noteq> 0
           \<and> ((\<forall>e \<in> set (daily_equity s). 0 \<le> e)
                \<longrightarrow> 0 \<le> max_drawdown s \<and> max_drawdown s \<le> 1)"
proof -
  let ?n = "nat forecast_length"
  let ?s0 = "initial_state forecast_length initial_capital"
  have init: "0 < max_equity ?s0" "0 \<le> max_drawdown ?s0" "length (daily_equity ?s0) = ?n"
      "max_drawdown ?s0 \<le> 1"
    using assms(2) by (simp_all add: initial_state_def)
  obtain s g' where run: "form_sequence trades fraction [0..<?n] ?s0 g = Inr (s, g')"
      and pos: "0 < max_equity s" and md: "0 \<le> max_drawdown s"
      and len: "length (daily_equity s) = ?n"
      and bound: "max_drawdown ?s0 \<le> 1 \<longrightarrow> (\<forall>j. 0 \<le> j \<and> j < ?n \<longrightarrow> 0 \<le> daily_equity s ! j)
                \<longrightarrow> max_drawdown s \<le> 1"
    using form_sequence_bounds [OF assms(1) refl init(1,2,3), of fraction 0 g] by auto
  have call: "make_one_equity_sequence trades fraction forecast_length initial_capital g
               = Inr ((equity s, max_drawdown s), g')"
    using assms(3) run by (simp add: make_one_equity_sequence_def)
  have "max_drawdown s \<le> 1" if "\<forall>e \<in> set (daily_equity s). 0 \<le> e"
  proof -
    have "\<forall>j. 0 \<le> j \<and> j < ?n \<longrightarrow> 0 \<le> daily_equity s ! j"
      using that len by simp
    then show ?thesis using bound init(4) by blast
  qed
  then show ?thesis
    using run call pos md by auto
qed

theorem max_drawdown_in_unit_interval_witness:
  "[1 / 10, - 1 / 5] \<noteq> ([] :: real list) \<and> (0::real) < 100 \<and> (0::int) \<le> 2
   \<and> (\<exists>s g'. form_sequence [1 / 10, - 1 / 5] 1 [0..<nat 2] (initial_state 2 100) (\<lambda>i. i)
                 = Inr (s, g')
         \<and> (\<forall>e \<in> set (daily_equity s). 0 \<le> e)
         \<and> max_equity s \<noteq> 0 \<and> 0 \<le> max_drawdown s \<and> max_drawdown s \<le> 1)"
proof -
  obtain s g' where run: "form_sequence [1 / 10, - 1 / 5] 1 [0..<nat 2] (initial_state 2 100)
        (\<lambda>i. i) = Inr (s, g')"
      and nz: "max_equity s \<noteq> 0"
      and imp: "(\<forall>e \<in> set (daily_equity s). 0 \<le> e) \<longrightarrow> 0 \<le> max_drawdown s \<and> max_drawdown s \<le> 1"
    using max_drawdown_in_unit_interval [of "[1 / 10, - 1 / 5]" 100 2 1 "\<lambda>i. i"] by auto
  have "daily_equity s = [110, 88]"
    using run unfolding example_run by auto
  then have nonneg: "\<forall>e \<in> set (daily_equity s). 0 \<le> e" by simp
  show ?thesis
    using run nz imp nonneg by auto
qed

section \<open>One pass of an estimator\<close>

lemma advance_advance: "advance a (advance b g) = advance (a + b) g"
  by (simp add: advance_def fun_eq_iff add.assoc)

lemma advance_0: "advance 0 g = g"
  by (simp add: advance_def)

lemma make_one_default:
  assumes "trades \<noteq> []"
  shows "make_one_equity_sequence trades fraction 500 100000 g
           = Inr (curve trades fraction g 0, advance 500 g)"
  using make_one_equity_sequence_simulate [OF assms, of 500 100000 fraction g]
  by (simp add: curve_def advance_0)

lemma run_sequences_curves:
  assumes "trades \<noteq> []"
  shows "run_sequences trades fraction n equity_list max_dd_list g =
           Inr ((equity_list @ map (\<lambda>k. fst (curve trades fraction g k)) [0..<n],
                 max_dd_list @ map (\<lambda>k. snd (curve trades fraction g k)) [0..<n]),
                advance (500 * n) g)"
proof (induction n arbitrary: equity_list max_dd_list g)
  case 0
  then show ?case by (simp add: advance_0)
next
  case (Suc n)
  have shift: "curve trades fraction (advance 500 g) k = curve trades fraction g (Suc k)" for k
    by (simp add: curve_def advance_advance add.commute)
  have adv: "advance (500 * n) (advance 500 g) = advance (500 * Suc n) g"
    by (simp add: advance_advance add.commute)
  have split: "map h [0..<Suc n] = h 0 # map (\<lambda>k. h (Suc k)) [0..<n]" for h :: "nat \<Rightarrow> real"
    by (simp add: upt_conv_Cons map_Suc_upt [symmetric] del: upt_Suc)
  show ?case
    unfolding split
    by (simp add: make_one_default [OF assms] Suc.IH shift adv split: prod.splits)
qed

lemma np_percentile_const:
  assumes "a \<noteq> []" and "set a \<subseteq> {c}" and "0 \<le> q" and "q \<le> 100"
  shows "np_percentile a q = Inr c"
proof -
  let ?arr = "sort a"
  let ?n = "length ?arr"
  let ?v = "q / 100 * real (?n - 1)"
  let ?lo = "nat \<lfloor>?v\<rfloor>"
  have n: "0 < ?n" using assms(1) by simp
  have all: "?arr ! j = c" if "j < ?n" for j
  proof -
    have "?arr ! j \<in> set ?arr" using that by (rule nth_mem)
    then show ?thesis using assms(2) by auto
  qed
  have "q * real (?n - 1) \<le> 100 * real (?n - 1)"
    using assms(4) by (intro mult_right_mono) simp_all
  then have "?v \<le> real (?n - 1)"
    by simp
  then have "\<lfloor>?v\<rfloor> \<le> int (?n - 1)" by (simp add: floor_le_iff) 
  then have lo: "?lo < ?n" using n by linarith
  have "min (?lo + 1) (?n - 1) \<le> ?n - 1" by (rule min.cobounded2)
  then have hi: "min (?lo + 1) (?n - 1) < ?n" using n by linarith
  show ?thesis
    using assms(1,3,4) all [OF lo] all [OF hi]
    by (simp add: np_percentile_def Let_def)
qed

lemma analyze_const:
  assumes "trades \<noteq> []" and "\<forall>k<1000. snd (curve trades fraction g k) = d"
  shows "analyze_distribution_of_drawdown trades fraction fl ic w 1000 5 g
           = Inr (d, advance 500000 g)"
proof -
  have "map (\<lambda>k. snd (curve trades fraction g k)) [0..<1000] = map (\<lambda>k. d) [0..<1000]"
    by (rule map_cong [OF refl]) (use assms(2) in simp)
  then have m: "map (\<lambda>k. snd (curve trades fraction g k)) [0..<1000] = replicate 1000 d"
    by (simp add: map_replicate_const)
  have p: "np_percentile (replicate 1000 d) 95 = Inr d"
    by (rule np_percentile_const) simp_all
  show ?thesis
    by (simp add: analyze_distribution_of_drawdown_def run_sequences_curves [OF assms(1)] m p)
qed

section \<open>compute_tail_risk\<close>

lemma np_percentile_scalar:
  assumes "0 \<le> q" and "q \<le> 100"
  shows "np_percentile [x] q = Inr x"
  using assms by (simp add: np_percentile_def)

text \<open>
  C10. For a tail percentile between 0 and 100 and the same generator,
  \<open>compute_tail_risk(drawdowns, fraction, p)\<close> returns exactly what
  \<open>analyze_distribution_of_drawdown(drawdowns, fraction)\<close> returns: the second
  percentile is taken of a single scalar and is the identity, so \<open>p\<close> has no effect.
\<close>

theorem compute_tail_risk_ignores_percentile:
  assumes "0 \<le> p" and "p \<le> 100"
  shows "compute_tail_risk drawdowns fraction p g
           = analyze_distribution_of_drawdown drawdowns fraction 500 100000 ''uniform'' 1000 5 g"
proof (cases "analyze_distribution_of_drawdown drawdowns fraction 500 100000 ''uniform'' 1000 5 g")
  case (Inl e)
  then show ?thesis by (simp add: compute_tail_risk_def)
next
  case (Inr r)
  obtain x g' where r: "r = (x, g')" by (cases r)
  have "np_percentile [x] (100 - p) = Inr x"
    using assms by (intro np_percentile_scalar) simp_all
  then show ?thesis using Inr r by (simp add: compute_tail_risk_def)
qed

theorem compute_tail_risk_ignores_percentile_witness:
  "(0::real) \<le> 50 \<and> (50::real) \<le> 100
   \<and> compute_tail_risk flat_pool 1 50 constant_gen
       = analyze_distribution_of_drawdown flat_pool 1 500 100000 ''uniform'' 1000 5 constant_gen"
  using compute_tail_risk_ignores_percentile [of 50 flat_pool 1 constant_gen] by simp

section \<open>A flat pool\<close>

lemma foldl_spec_step_zeros:
  assumes "\<forall>r \<in> set rs. r = 0" and "e \<le> m" and "(m - e) / m \<le> d"
  shows "foldl (spec_step fraction) (e, m, d) rs = (e, m, d)"
  using assms
proof (induction rs)
  case Nil
  then show ?case by simp
next
  case (Cons r rs)
  then have "spec_step fraction (e, m, d) r = (e, m, d)"
    by (simp add: spec_step_def Let_def max_def)
  then show ?case using Cons by simp
qed

lemma curve_flat: "curve flat_pool fraction g k = (100000, 0)"
proof -
  have "foldl (spec_step fraction) (100000, 100000, 0)
          (map (\<lambda>k. flat_pool ! k) (map (drawn_index flat_pool (advance (500 * k) g)) [0..<500]))
        = (100000, 100000, 0)"
    by (rule foldl_spec_step_zeros) (auto simp: flat_pool_def drawn_index_def)
  then show ?thesis by (simp add: curve_def simulate_def)
qed


text \<open>
  C5, at a concrete call. \<open>form_distribution_of_equity\<close> is given
  \<open>forecast_length = 1\<close> and \<open>initial_capital = 1\<close>, and yet its one curve runs 500
  steps from 100000: the sample is \<open>[100000]\<close> and 500 draws are consumed. The
  simulator called with the caller's values returns equity 1 after one draw.
\<close>

theorem estimators_ignore_length_and_capital:
  "form_distribution_of_equity flat_pool 1 1 1 1 constant_gen
     = Inr ([100000], advance 500 constant_gen)
   \<and> make_one_equity_sequence flat_pool 1 1 1 constant_gen = Inr ((1, 0), advance 1 constant_gen)"
proof -
  have ne: "flat_pool \<noteq> []" by (simp add: flat_pool_def)
  have r: "run_sequences flat_pool 1 1 [] [] constant_gen
     = Inr (([100000], [0]), advance 500 constant_gen)"
    unfolding run_sequences_curves [OF ne] by (simp add: curve_flat)
  have a: "form_distribution_of_equity flat_pool 1 1 1 1 constant_gen
     = Inr ([100000], advance 500 constant_gen)"
    unfolding form_distribution_of_equity_def nat_one_as_int [symmetric] r by simp
  have b: "make_one_equity_sequence flat_pool 1 1 1 constant_gen = Inr ((1, 0), advance 1 constant_gen)"
    using make_one_equity_sequence_simulate [OF ne, of 1 1 1 constant_gen]
    by (simp add: simulate_def spec_step_def drawn_index_def flat_pool_def Let_def)
  show ?thesis using a b by simp
qed

section \<open>An empty pool\<close>

lemma make_one_empty:
  assumes "0 < forecast_length"
  shows "make_one_equity_sequence [] fraction forecast_length initial_capital g = Inl ValueError"
proof -
  have "[0..<nat forecast_length] = 0 # [1..<nat forecast_length]"
    using assms by (simp add: upt_conv_Cons)
  then show ?thesis
    using assms by (simp add: make_one_equity_sequence_def sequence_step_def randint_def)
qed

lemma make_one_empty_zero:
  "make_one_equity_sequence [] fraction 0 initial_capital g = Inr ((initial_capital, 0), g)"
  by (simp add: make_one_equity_sequence_def initial_state_def)

lemma run_sequences_empty:
  assumes "0 < n"
  shows "run_sequences [] fraction n equity_list max_dd_list g = Inl ValueError"
proof -
  obtain m where "n = Suc m" using assms by (cases n) auto
  then show ?thesis by (simp add: make_one_empty)
qed

lemma analyze_empty:
  assumes "0 < number_sequences"
  shows "analyze_distribution_of_drawdown [] fraction fl ic w number_sequences tp g = Inl ValueError"
  using assms by (simp add: analyze_distribution_of_drawdown_def run_sequences_empty)

lemma form_distribution_empty:
  assumes "0 < number_sequences"
  shows "form_distribution_of_equity [] fraction fl ic number_sequences g = Inl ValueError"
  using assms by (simp add: form_distribution_of_equity_def run_sequences_empty)

lemma solve_empty: "solve_safe_f [] fraction g = Some (Inl ValueError)"
  by (subst solve_safe_f.simps) (simp add: analyze_empty)

section \<open>Outcomes of the solver\<close>

lemma analyze_nonempty:
  assumes "trades \<noteq> []"
  shows "\<exists>t. analyze_distribution_of_drawdown trades fraction fl ic w 1000 5 g
           = Inr (t, advance 500000 g)"
proof -
  let ?xs = "map (\<lambda>k. snd (curve trades fraction g k)) [0..<1000]"
  have "length (sort ?xs) = 1000" by simp
  then have ne: "sort ?xs \<noteq> []" by (metis length_0_conv zero_neq_numeral)
  have "\<exists>t. np_percentile (sort ?xs) 95 = Inr t"
    using ne by (simp add: np_percentile_def Let_def)
  then obtain t where "np_percentile (sort ?xs) 95 = Inr t" ..
  then show ?thesis
    by (simp add: analyze_distribution_of_drawdown_def run_sequences_curves [OF assms])
qed

lemma loop_non_finite_empty_only:
  assumes "loop_non_finite trades g = Some y"
  shows "trades = [] \<and> y = Inl ValueError"
proof (rule loop_non_finite.raw_induct
    [where P = "\<lambda>trades g y. trades = [] \<and> y = Inl ValueError", OF _ assms])
  fix loop :: "real list \<Rightarrow> rng \<Rightarrow> (error + (solver_result \<times> rng)) option"
  fix trades g y
  assume IH: "\<And>trades g y. loop trades g = Some y \<Longrightarrow> trades = [] \<and> y = Inl ValueError"
  assume body: "(case analyze_non_finite trades g of
        Inl e \<Rightarrow> Some (Inl e)
      | Inr g' \<Rightarrow> loop trades g') = Some y"
  show "trades = [] \<and> y = Inl ValueError"
  proof (cases "trades = []")
    case True
    then show ?thesis using body by (auto simp: analyze_non_finite_def)
  next
    case False
    then have "loop trades (advance (500 * 1000) g) = Some y"
      using body by (simp add: analyze_non_finite_def)
    then show ?thesis using IH False by blast
  qed
qed

lemma loop_non_finite_diverges:
  assumes "trades \<noteq> []"
  shows "loop_non_finite trades g = None"
proof (cases "loop_non_finite trades g")
  case None
  then show ?thesis .
next
  case (Some y)
  then show ?thesis using loop_non_finite_empty_only assms by blast
qed

lemma solve_result:
  assumes "solve_safe_f trades fraction g = Some y"
  shows "returned y"
proof (rule solve_safe_f.raw_induct [where P = "\<lambda>a b c y. returned y", OF _ assms])
  fix solve :: "real list \<Rightarrow> real \<Rightarrow> rng \<Rightarrow> (error + (solver_result \<times> rng)) option"
  fix trades fraction g y
  assume IH: "\<And>trades fraction g y. solve trades fraction g = Some y \<Longrightarrow> returned y"
  assume body: "(case analyze_distribution_of_drawdown trades fraction 500 100000 ''uniform'' 1000 5 g of
        Inl e \<Rightarrow> Some (Inl e)
      | Inr (tail_risk, g') \<Rightarrow>
          if \<bar>tail_risk - drawdown_tolerance\<bar> < desired_accuracy
          then Some (Inr (\<lparr>final_fraction = fraction, final_tail_risk = tail_risk,
                            safe_f = tail_risk\<rparr>, g'))
          else (case float_divide (fraction * drawdown_tolerance) tail_risk of
                  NonFinite \<Rightarrow> loop_non_finite trades g'
                | Finite fraction' \<Rightarrow> solve trades fraction' g')) = Some y"
  show "returned y"
  proof (cases "trades = []")
    case True
    then show ?thesis using body by (auto simp: analyze_empty returned_def)
  next
    case False
    obtain t where t: "analyze_distribution_of_drawdown trades fraction 500 100000 ''uniform'' 1000 5 g
           = Inr (t, advance 500000 g)"
      using analyze_nonempty [OF False] by blast
    show ?thesis
    proof (cases "\<bar>t - drawdown_tolerance\<bar> < desired_accuracy")
      case True
      then show ?thesis using body unfolding t by (auto simp: returned_def)
    next
      case far: False
      show ?thesis
      proof (cases "t = 0")
        case True
        then have "loop_non_finite trades (advance 500000 g) = Some y"
          using body far unfolding t by (simp add: float_divide_def)
        then show ?thesis using loop_non_finite_diverges [OF \<open>trades \<noteq> []\<close>] by simp
      next
        case False
        then have "solve trades (fraction * drawdown_tolerance / t) (advance 500000 g) = Some y"
          using body far unfolding t by (simp add: float_divide_def)
        then show ?thesis by (rule IH)
      qed
    qed
  qed
qed

section \<open>The solver on a tail risk of zero\<close>





section \<open>An empty pool: what the code does\<close>

lemma sequence_step_empty: "sequence_step [] fraction i s g = Inl ValueError"
  by (simp add: sequence_step_def randint_def)

text \<open>
  C9, as the code has it. Nothing checks the pool. On an empty pool the first pass of
  the simulator's loop raises ValueError from \<open>random.randint(0, -1)\<close>, before any
  equity update; so the simulator with a positive forecast length, both estimators with
  a positive number of sequences, and the solver end in that ValueError.
\<close>

theorem empty_pool_fails_at_first_draw:
  "sequence_step [] fraction i s g = Inl ValueError
   \<and> (0 < forecast_length \<longrightarrow>
        make_one_equity_sequence [] fraction forecast_length initial_capital g = Inl ValueError)
   \<and> (0 < number_sequences \<longrightarrow>
        analyze_distribution_of_drawdown [] fraction fl ic w number_sequences tp g = Inl ValueError
        \<and> form_distribution_of_equity [] fraction fl ic number_sequences g = Inl ValueError)
   \<and> solve_safe_f [] fraction g = Some (Inl ValueError)"
  by (simp add: sequence_step_empty make_one_empty analyze_empty form_distribution_empty solve_empty)

theorem empty_pool_fails_at_first_draw_witness:
  "(0::int) < 500 \<and> (0::int) < 1000
   \<and> make_one_equity_sequence [] 1 500 100000 constant_gen = Inl ValueError
   \<and> analyze_distribution_of_drawdown [] 1 500 100000 ''uniform'' 1000 5 constant_gen
        = Inl ValueError
   \<and> form_distribution_of_equity [] 1 500 100000 1000 constant_gen = Inl ValueError"
  using empty_pool_fails_at_first_draw
          [of 1 0 "initial_state 500 100000" constant_gen 500 100000 1000 500 100000 "''uniform''" 5]
  by simp

text \<open>
  C9 as stated fails: with a forecast length of 0 the simulator returns
  \<open>(initial_capital, 0)\<close> on an empty pool and reports nothing; with the default
  length the error is the ValueError of the draw itself.
\<close>

theorem empty_pool_counterexample:
  "make_one_equity_sequence [] 1 0 100000 constant_gen = Inr ((100000, 0), constant_gen)
   \<and> make_one_equity_sequence [] 1 500 100000 constant_gen = Inl ValueError"
  by (simp add: make_one_empty make_one_empty_zero)

section \<open>CAR25\<close>

lemma np_percentile_linear:
  assumes "sorted a" and "a \<noteq> []" and "0 \<le> q" and "q \<le> 100"
  shows "np_percentile a q = Inr (percentile_linear a q)"
proof -
  define h where "h = q / 100 * real (length a - 1)"
  define lo where "lo = nat \<lfloor>h\<rfloor>"
  have h0: "0 \<le> h" using assms(3) by (simp add: h_def)
  have "q * real (length a - 1) \<le> 100 * real (length a - 1)"
    using assms(4) by (intro mult_right_mono) simp_all
  then have h1: "h \<le> real (length a - 1)" by (simp add: h_def)
  have fl: "0 \<le> \<lfloor>h\<rfloor>" using h0 by simp
  then have lo: "real lo = of_int \<lfloor>h\<rfloor>" by (simp add: lo_def)
  have srt: "sort a = a" using assms(1) by (rule sorted_sort_id)
  have np: "np_percentile a q
      = Inr (a ! lo + (h - real lo) * (a ! min (lo + 1) (length a - 1) - a ! lo))"
    using assms(2,3,4) by (simp add: np_percentile_def srt Let_def h_def lo_def)
  have pl: "percentile_linear a q = a ! lo + (h - real lo) * (a ! nat \<lceil>h\<rceil> - a ! lo)"
    by (simp add: percentile_linear_def Let_def h_def lo_def)
  show ?thesis
  proof (cases "of_int \<lfloor>h\<rfloor> = h")
    case True
    then have g0: "h - real lo = 0" using lo by linarith
    show ?thesis unfolding np pl g0 by simp
  next
    case False
    then have c: "\<lceil>h\<rceil> = \<lfloor>h\<rfloor> + 1" by (simp add: ceiling_altdef)
    have above: "nat \<lceil>h\<rceil> = lo + 1"
      unfolding c lo_def using fl by (simp add: nat_add_distrib)
    have "of_int \<lfloor>h\<rfloor> < h" using False by (simp add: less_le)
    then have "of_int \<lfloor>h\<rfloor> < real (length a - 1)" using h1 by linarith
    then have "\<lfloor>h\<rfloor> < int (length a - 1)" by linarith
    then have "lo + 1 \<le> length a - 1" unfolding lo_def using fl by linarith
    then have m: "min (lo + 1) (length a - 1) = lo + 1" by simp
    show ?thesis unfolding np pl m above by simp
  qed
qed

text \<open>
  C6. For a sorted, non-empty sample of final equities whose linearly interpolated 25th
  percentile is positive, the program's CAR25 is
  \<open>100 * (exp((periodsPerYear / forecastLength) * ln(terminalWealth25 / initialCapital)) - 1)\<close>
  at the program's values 252, 500 and 100000.
\<close>

theorem car25_formula_holds:
  assumes "sorted CDF_equity" and "CDF_equity \<noteq> []" and "0 < percentile_linear CDF_equity 25"
  shows "compute_CAR25 CDF_equity
           = Inr (car25_formula 252 500 100000 (percentile_linear CDF_equity 25))"
proof -
  have p: "np_percentile CDF_equity 25 = Inr (percentile_linear CDF_equity 25)"
    using assms(1,2) by (intro np_percentile_linear) simp_all
  have "\<not> percentile_linear CDF_equity 25 / 100000 \<le> 0"
    using assms(3) by simp
  then show ?thesis
    by (simp add: compute_CAR25_def p math_log_def car25_formula_def
        initial_capital_global_def forecast_length_global_def)
qed

lemma percentile_example: "percentile_linear [10, 20, 30, 40] 25 = 35 / 2"
  by (simp add: percentile_linear_def Let_def)

theorem car25_formula_holds_witness:
  "sorted [10, 20, 30, 40 :: real] \<and> [10, 20, 30, 40] \<noteq> ([] :: real list)
   \<and> 0 < percentile_linear [10, 20, 30, 40] 25
   \<and> compute_CAR25 [10, 20, 30, 40] = Inr (car25_formula 252 500 100000 (35 / 2))"
  using car25_formula_holds [of "[10, 20, 30, 40]"]
  by (simp add: percentile_example)





section \<open>Passes with a known sequence of draws\<close>

lemma simulate_prefix:
  assumes "map (\<lambda>k. trades ! k) idxs = rs @ zs" and "\<forall>z \<in> set zs. z = 0"
    and "foldl (spec_step fraction) (ic, ic, 0) rs = (e, m, d)"
    and "e \<le> m" and "(m - e) / m \<le> d"
  shows "simulate trades fraction ic idxs = (e, d)"
proof -
  have "foldl (spec_step fraction) (ic, ic, 0) (rs @ zs) = (e, m, d)"
    using assms(3) foldl_spec_step_zeros [OF assms(2,4,5)] by simp
  then show ?thesis by (simp add: simulate_def assms(1))
qed

lemma position_mod: "(i + 500 * k + 500000 * m) mod 500 = i mod (500::nat)"
proof -
  have "i + 500 * k + 500000 * m = i + 500 * (k + 1000 * m)" by simp
  then show ?thesis by (simp only: mod_mult_self2)
qed

lemma position_div:
  assumes "i < 500" and "k < 1000"
  shows "(i + 500 * k + 500000 * m) div 500000 = (m::nat)"
proof -
  have "i + 500 * k < 500000" using assms by linarith
  then show ?thesis by (simp add: div_mult_self2 [of 500000 "i + 500 * k" m])
qed

lemma drawn_nth:
  assumes "i < n"
  shows "map (\<lambda>j. trades ! j) (map (drawn_index trades g) [0..<n]) ! i
           = trades ! (g i mod length trades)"
  using assms by (simp add: drawn_index_def)

subsection \<open>One loss per curve: the solver stops in its first pass\<close>

lemma one_loss_gen_at:
  assumes "i < 500"
  shows "advance (500 * k) one_loss_gen i = (if i = 0 then 1 else 0)"
proof -
  have "(i + 500 * k + 500000 * 0) mod 500 = i mod 500" by (rule position_mod)
  then have "(i + 500 * k) mod 500 = i" using assms by simp
  then show ?thesis by (simp add: advance_def one_loss_gen_def)
qed

lemma drawn_one_loss:
  "map (\<lambda>j. one_loss_pool ! j)
     (map (drawn_index one_loss_pool (advance (500 * k) one_loss_gen)) [0..<500])
   = [- 1 / 10] @ replicate 499 0"
proof (rule nth_equalityI)
  show "length (map (\<lambda>j. one_loss_pool ! j)
     (map (drawn_index one_loss_pool (advance (500 * k) one_loss_gen)) [0..<500]))
     = length ([- 1 / 10 :: real] @ replicate 499 0)"
    by simp
next
  fix i
  assume "i < length (map (\<lambda>j. one_loss_pool ! j)
     (map (drawn_index one_loss_pool (advance (500 * k) one_loss_gen)) [0..<500]))"
  then have i: "i < 500" by simp
  have l: "map (\<lambda>j. one_loss_pool ! j)
     (map (drawn_index one_loss_pool (advance (500 * k) one_loss_gen)) [0..<500]) ! i
     = one_loss_pool ! (advance (500 * k) one_loss_gen i mod length one_loss_pool)"
    using i by (rule drawn_nth)
  show "map (\<lambda>j. one_loss_pool ! j)
     (map (drawn_index one_loss_pool (advance (500 * k) one_loss_gen)) [0..<500]) ! i
     = ([- 1 / 10] @ replicate 499 0) ! i"
    unfolding l one_loss_gen_at [OF i]
    using i by (simp add: one_loss_pool_def nth_append nth_Cons')
qed

lemma curve_one_loss: "curve one_loss_pool 1 one_loss_gen k = (90000, 1 / 10)"
  unfolding curve_def
  by (rule simulate_prefix [OF drawn_one_loss, where m = 100000])
     (simp_all add: spec_step_def Let_def)

lemma analyze_one_loss:
  "analyze_distribution_of_drawdown one_loss_pool 1 fl ic w 1000 5 one_loss_gen
     = Inr (1 / 10, advance 500000 one_loss_gen)"
  by (rule analyze_const) (simp_all add: curve_one_loss, simp add: one_loss_pool_def)

lemma solve_one_loss:
  "solve_safe_f one_loss_pool 1 one_loss_gen
     = Some (Inr (\<lparr>final_fraction = 1, final_tail_risk = 1 / 10, safe_f = 1 / 10\<rparr>,
                  advance 500000 one_loss_gen))"
  by (subst solve_safe_f.simps)
     (simp add: analyze_one_loss drawdown_tolerance_def desired_accuracy_def)

text \<open>
  C2, at a concrete run. Every curve loses 10 percent once, the tail risk at fraction
  1.0 is 0.10 and the loop stops in its first pass: \<open>safe_f\<close> is set to the tail risk
  0.10, while the fraction at which it was measured is 1.0.
\<close>

theorem safe_f_is_tail_risk_not_fraction:
  "solve_safe_f one_loss_pool 1 one_loss_gen
     = Some (Inr (\<lparr>final_fraction = 1, final_tail_risk = 1 / 10, safe_f = 1 / 10\<rparr>,
                  advance 500000 one_loss_gen))"
  by (rule solve_one_loss)

subsection \<open>A run that never leaves the loop\<close>

lemma cycle_gen_at:
  assumes "i < 500" and "k < 1000"
  shows "advance (500 * k) (advance (500000 * m) cycle_gen) i
           = (if i = 0 \<or> (i = 1 \<and> odd m) then 1 else 0)"
proof -
  have md: "(i + 500 * k + 500000 * m) mod 500 = i"
    using position_mod [of i k m] assms(1) by simp
  have dv: "(i + 500 * k + 500000 * m) div 500000 = m"
    using assms by (rule position_div)
  have "advance (500 * k) (advance (500000 * m) cycle_gen) i
          = cycle_gen (i + 500 * k + 500000 * m)"
    by (simp add: advance_def)
  then show ?thesis
    unfolding cycle_gen_def md dv by simp
qed

lemma drawn_cycle:
  assumes "k < 1000"
  shows "map (\<lambda>j. cycle_pool ! j)
     (map (drawn_index cycle_pool (advance (500 * k) (advance (500000 * m) cycle_gen))) [0..<500])
   = (if odd m then [- 1, - 1] @ replicate 498 0 else [- 1] @ replicate 499 0)"
    (is "?l = ?r")
proof (rule nth_equalityI)
  show "length ?l = length ?r" by simp
next
  fix i
  assume "i < length ?l"
  then have i: "i < 500" by simp
  have l: "?l ! i = cycle_pool
      ! (advance (500 * k) (advance (500000 * m) cycle_gen) i mod length cycle_pool)"
    using i by (rule drawn_nth)
  show "?l ! i = ?r ! i"
    unfolding l cycle_gen_at [OF i assms]
    using i by (auto simp: cycle_pool_def nth_append nth_Cons' less_Suc_eq numeral_2_eq_2)
qed

lemma curve_cycle_odd:
  assumes "odd m" and "k < 1000"
  shows "curve cycle_pool (1 / 10) (advance (500000 * m) cycle_gen) k = (81000, 19 / 100)"
proof -
  have d: "map (\<lambda>j. cycle_pool ! j)
     (map (drawn_index cycle_pool (advance (500 * k) (advance (500000 * m) cycle_gen))) [0..<500])
     = [- 1, - 1] @ replicate 498 0"
    using drawn_cycle [OF assms(2), of m] assms(1) by simp
  show ?thesis
    unfolding curve_def
    by (rule simulate_prefix [OF d, where m = 100000])
       (simp_all add: spec_step_def Let_def)
qed

lemma curve_cycle_even:
  assumes "even m" and "k < 1000" and "0 \<le> fraction"
  shows "curve cycle_pool fraction (advance (500000 * m) cycle_gen) k
           = (100000 - 100000 * fraction, fraction)"
proof -
  have d: "map (\<lambda>j. cycle_pool ! j)
     (map (drawn_index cycle_pool (advance (500 * k) (advance (500000 * m) cycle_gen))) [0..<500])
     = [- 1] @ replicate 499 0"
    using drawn_cycle [OF assms(2), of m] assms(1) by simp
  have mx: "max 100000 (100000 - 100000 * fraction) = 100000"
    using assms(3) by simp
  show ?thesis
    unfolding curve_def
    by (rule simulate_prefix [OF d, where m = 100000])
       (use assms(3) in \<open>simp_all add: spec_step_def Let_def mx\<close>)
qed

lemma cycle_fraction_nonneg: "0 \<le> cycle_fraction m"
  by (simp add: cycle_fraction_def)

lemma cycle_pass:
  "analyze_distribution_of_drawdown cycle_pool (cycle_fraction m) 500 100000 ''uniform'' 1000 5
       (advance (500000 * m) cycle_gen)
     = Inr (cycle_tail_risk m, advance (500000 * Suc m) cycle_gen)"
proof -
  have ne: "cycle_pool \<noteq> []" by (simp add: cycle_pool_def)
  have adv: "advance 500000 (advance (500000 * m) cycle_gen) = advance (500000 * Suc m) cycle_gen"
    by (simp add: advance_advance)
  have c: "\<forall>k<1000. snd (curve cycle_pool (cycle_fraction m) (advance (500000 * m) cycle_gen) k)
             = cycle_tail_risk m"
  proof (cases "odd m")
    case True
    then have f: "cycle_fraction m = 1 / 10" using odd_pos [of m] by (simp add: cycle_fraction_def)
    have t: "cycle_tail_risk m = 19 / 100" using True by (simp add: cycle_tail_risk_def)
    show ?thesis unfolding f t using True by (simp add: curve_cycle_odd)
  next
    case False
    then show ?thesis
      by (simp add: curve_cycle_even cycle_fraction_nonneg cycle_tail_risk_def)
  qed
  show ?thesis
    using analyze_const [OF ne c] unfolding adv .
qed

lemma cycle_step:
  "\<not> \<bar>cycle_tail_risk m - drawdown_tolerance\<bar> < desired_accuracy"
  "cycle_tail_risk m \<noteq> 0"
  "cycle_fraction m * drawdown_tolerance / cycle_tail_risk m = cycle_fraction (Suc m)"
  using odd_pos [of m]
  by (auto simp: cycle_tail_risk_def cycle_fraction_def drawdown_tolerance_def
      desired_accuracy_def)

lemma cycle_never_returns:
  assumes "solve_safe_f trades fraction g = Some y"
  shows "\<forall>m. \<not> (trades = cycle_pool \<and> fraction = cycle_fraction m
                 \<and> g = advance (500000 * m) cycle_gen)"
proof (rule solve_safe_f.raw_induct
    [where P = "\<lambda>trades fraction g y. \<forall>m. \<not> (trades = cycle_pool \<and> fraction = cycle_fraction m
                 \<and> g = advance (500000 * m) cycle_gen)", OF _ assms])
  fix solve :: "real list \<Rightarrow> real \<Rightarrow> rng \<Rightarrow> (error + (solver_result \<times> rng)) option"
  fix trades fraction g y
  assume IH: "\<And>trades fraction g y. solve trades fraction g = Some y \<Longrightarrow>
      \<forall>m. \<not> (trades = cycle_pool \<and> fraction = cycle_fraction m
                 \<and> g = advance (500000 * m) cycle_gen)"
  assume body: "(case analyze_distribution_of_drawdown trades fraction 500 100000 ''uniform'' 1000 5 g of
        Inl e \<Rightarrow> Some (Inl e)
      | Inr (tail_risk, g') \<Rightarrow>
          if \<bar>tail_risk - drawdown_tolerance\<bar> < desired_accuracy
          then Some (Inr (\<lparr>final_fraction = fraction, final_tail_risk = tail_risk,
                            safe_f = tail_risk\<rparr>, g'))
          else (case float_divide (fraction * drawdown_tolerance) tail_risk of
                  NonFinite \<Rightarrow> loop_non_finite trades g'
                | Finite fraction' \<Rightarrow> solve trades fraction' g')) = Some y"
  show "\<forall>m. \<not> (trades = cycle_pool \<and> fraction = cycle_fraction m
                 \<and> g = advance (500000 * m) cycle_gen)"
  proof (intro allI notI)
    fix m
    assume here: "trades = cycle_pool \<and> fraction = cycle_fraction m
                 \<and> g = advance (500000 * m) cycle_gen"
    have "solve cycle_pool (cycle_fraction (Suc m)) (advance (500000 * Suc m) cycle_gen) = Some y"
      using body here cycle_step [of m]
      by (simp add: cycle_pass float_divide_def del: mult_Suc_right)
    then have "\<not> (cycle_pool = cycle_pool \<and> cycle_fraction (Suc m) = cycle_fraction (Suc m)
                 \<and> advance (500000 * Suc m) cycle_gen = advance (500000 * Suc m) cycle_gen)"
      using IH by blast
    then show False by simp
  qed
qed

lemma cycle_diverges: "solve_safe_f cycle_pool 1 cycle_gen = None"
proof (cases "solve_safe_f cycle_pool 1 cycle_gen")
  case None
  then show ?thesis .
next
  case (Some y)
  then have "\<not> (cycle_pool = cycle_pool \<and> (1::real) = cycle_fraction 0
                 \<and> cycle_gen = advance (500000 * 0) cycle_gen)"
    using cycle_never_returns by blast
  then show ?thesis by (simp add: cycle_fraction_def advance_0)
qed

text \<open>
  C3, as the code has it. The loop has no bound on its passes and no report of
  non-convergence: when it ends, it is with an exception of the runtime or after a pass
  whose tail risk is within the accuracy of the tolerance; and on the pool
  \<open>[0.0, -1.0]\<close> with the generator above it never ends, the fraction going
  1, 1/10, 1/19, 1/10, 1/19 and so on.
\<close>

theorem solver_has_no_iteration_cap:
  "(solve_safe_f trades fraction g = Some y \<longrightarrow> returned y)
   \<and> solve_safe_f trades fraction g \<noteq> Some (Inl NonConvergence)
   \<and> solve_safe_f cycle_pool 1 cycle_gen = None"
proof -
  have a: "solve_safe_f trades fraction g = Some y \<longrightarrow> returned y"
    using solve_result by blast
  have b: "solve_safe_f trades fraction g \<noteq> Some (Inl NonConvergence)"
  proof
    assume "solve_safe_f trades fraction g = Some (Inl NonConvergence)"
    then have "returned (Inl NonConvergence)" by (rule solve_result)
    then show False by (simp add: returned_def)
  qed
  show ?thesis using a b cycle_diverges by blast
qed

theorem solver_has_no_iteration_cap_witness:
  "solve_safe_f one_loss_pool 1 one_loss_gen
     = Some (Inr (\<lparr>final_fraction = 1, final_tail_risk = 1 / 10, safe_f = 1 / 10\<rparr>,
                  advance 500000 one_loss_gen))
   \<and> returned (Inr (\<lparr>final_fraction = 1, final_tail_risk = 1 / 10, safe_f = 1 / 10\<rparr>,
                  advance 500000 one_loss_gen))"
  using solver_has_no_iteration_cap [of one_loss_pool 1 one_loss_gen
      "Inr (\<lparr>final_fraction = 1, final_tail_risk = 1 / 10, safe_f = 1 / 10\<rparr>,
                  advance 500000 one_loss_gen)"]
  by (simp add: solve_one_loss)

text \<open>C3 as stated fails on that input: the solver does not terminate.\<close>

theorem solver_runs_forever_counterexample:
  "solve_safe_f cycle_pool 1 cycle_gen = None"
  by (rule cycle_diverges)

end
